theory Spec2Isabelle
  imports Main
begin

section \<open>Python values\<close>

text \<open>
  The frames of \<^verbatim>\<open>aioshelly/wsrpc.py\<close> are Python dictionaries
  \<^verbatim>\<open>dict[str, Any]\<close> decoded from JSON. A value is \<^verbatim>\<open>None\<close>, a boolean, an
  integer (unbounded), a string, a list or a dictionary. Strings are kept as their UTF-8
  bytes, so \<^verbatim>\<open>str.encode("utf-8")\<close> is the identity on them. A dictionary is an
  association list in insertion order with distinct keys. Floating point numbers are not
  part of the model.
\<close>

datatype pyval =
    PNone
  | PBool bool
  | PInt int
  | PStr string
  | PList "pyval list"
  | PDict "(string \<times> pyval) list"

type_synonym pydict = "(string \<times> pyval) list"

text \<open>Truth value testing, as \<^verbatim>\<open>if x:\<close> does it.\<close>

fun truthy :: "pyval \<Rightarrow> bool" where
  "truthy PNone = False"
| "truthy (PBool b) = b"
| "truthy (PInt n) = (n \<noteq> 0)"
| "truthy (PStr s) = (s \<noteq> [])"
| "truthy (PList xs) = (xs \<noteq> [])"
| "truthy (PDict d) = (d \<noteq> [])"

text \<open>
  \<^verbatim>\<open>==\<close> on Python values: a boolean equals the integer 0 or 1, lists are compared
  elementwise, dictionaries by their entries whatever the order.
\<close>

fun py_eq :: "pyval \<Rightarrow> pyval \<Rightarrow> bool"
  and py_eq_list :: "pyval list \<Rightarrow> pyval list \<Rightarrow> bool"
  and py_in_dict :: "string \<Rightarrow> pyval \<Rightarrow> pydict \<Rightarrow> bool"
  and py_sub_dict :: "pydict \<Rightarrow> pydict \<Rightarrow> bool" where
  "py_eq PNone PNone = True"
| "py_eq (PBool a) (PBool b) = (a = b)"
| "py_eq (PBool a) (PInt b) = (b = (if a then 1 else 0))"
| "py_eq (PInt a) (PBool b) = (a = (if b then 1 else 0))"
| "py_eq (PInt a) (PInt b) = (a = b)"
| "py_eq (PStr a) (PStr b) = (a = b)"
| "py_eq (PList xs) (PList ys) = py_eq_list xs ys"
| "py_eq (PDict xs) (PDict ys) = (length xs = length ys \<and> py_sub_dict xs ys)"
| "py_eq _ _ = False"
| "py_eq_list [] [] = True"
| "py_eq_list (x # xs) (y # ys) = (py_eq x y \<and> py_eq_list xs ys)"
| "py_eq_list _ _ = False"
| "py_in_dict k v [] = False"
| "py_in_dict k v ((k', v') # ys) = (if k = k' then py_eq v v' else py_in_dict k v ys)"
| "py_sub_dict [] ys = True"
| "py_sub_dict ((k, v) # xs) ys = (py_in_dict k v ys \<and> py_sub_dict xs ys)"

subsection \<open>Dictionaries\<close>

text \<open>\<^verbatim>\<open>k in d\<close>, \<^verbatim>\<open>d.get(k)\<close>, \<^verbatim>\<open>d[k] = v\<close> and \<^verbatim>\<open>del d[k]\<close>.\<close>

definition dict_in :: "string \<Rightarrow> pydict \<Rightarrow> bool" where
  "dict_in k d = (map_of d k \<noteq> None)"

definition dict_get :: "pydict \<Rightarrow> string \<Rightarrow> pyval" where
  "dict_get d k = (case map_of d k of None \<Rightarrow> PNone | Some v \<Rightarrow> v)"

fun dict_set :: "('k \<times> 'v) list \<Rightarrow> 'k \<Rightarrow> 'v \<Rightarrow> ('k \<times> 'v) list" where
  "dict_set [] k v = [(k, v)]"
| "dict_set ((k', v') # d) k v = (if k' = k then (k, v) # d else (k', v') # dict_set d k v)"

definition dict_del :: "('k \<times> 'v) list \<Rightarrow> 'k \<Rightarrow> ('k \<times> 'v) list" where
  "dict_del d k = filter (\<lambda>e. fst e \<noteq> k) d"


section \<open>Exceptions\<close>

text \<open>
  The exceptions the module raises or lets through. \<^verbatim>\<open>RuntimeError\<close> carries its
  message, \<^verbatim>\<open>JSONRPCError\<close> the code and message of the peer's error object,
  \<^verbatim>\<open>RPCError_bad_response\<close> is \<^verbatim>\<open>RPCError(f"bad response: {resp}")\<close>.
  \<^verbatim>\<open>KeyError\<close>, \<^verbatim>\<open>TypeError\<close>, \<^verbatim>\<open>AttributeError\<close>, \<^verbatim>\<open>AssertionError\<close> and
  \<^verbatim>\<open>InvalidStateError\<close> are the interpreter's and asyncio's own.
\<close>

datatype error =
    RuntimeError string
  | JSONRPCError pyval pyval
  | RPCError_bad_response pydict
  | CancelledError
  | ConnectionClosed
  | ConnectionFailed
  | InvalidMessage
  | KeyError string
  | TypeError
  | AttributeError
  | AssertionError
  | InvalidStateError

text \<open>
  Subscription \<^verbatim>\<open>x[k]\<close> with a string key: a dictionary looks the key up and raises
  \<^verbatim>\<open>KeyError\<close> when it is missing; every other value of the model raises
  \<^verbatim>\<open>TypeError\<close> (a string or a list wants an integer index, the others are not
  subscriptable).
\<close>

fun py_getitem :: "pyval \<Rightarrow> string \<Rightarrow> error + pyval" where
  "py_getitem (PDict d) k = (case map_of d k of None \<Rightarrow> Inl (KeyError k) | Some v \<Rightarrow> Inr v)"
| "py_getitem _ k = Inl TypeError"

section \<open>Route data and calls\<close>

text \<open>
  \<^verbatim>\<open>RouteData\<close> holds the local tag \<^verbatim>\<open>src\<close> and the learned peer tag \<^verbatim>\<open>dst\<close>,
  each a string or \<^verbatim>\<open>None\<close>. An \<^verbatim>\<open>RPCCall\<close> keeps the call id, the method, the
  parameters (a dictionary or \<^verbatim>\<open>None\<close>), both tags, the credential \<^verbatim>\<open>auth\<close> and its
  future \<^verbatim>\<open>resolve\<close>. Futures are objects shared between the registry and the awaiting
  caller, so the call holds the address of its future in a store.
\<close>

record RouteData =
  src :: pyval
  dst :: pyval

record RPCCall =
  call_id :: int
  call_method :: string
  params :: "pydict option"
  call_src :: pyval
  call_dst :: pyval
  resolve :: nat
  auth :: pyval

text \<open>
  \<^verbatim>\<open>RPCCall.__init__\<close>. The constructor deletes the key \<^verbatim>\<open>"auth"\<close> from the dictionary
  it was given, which is the caller's own object: the second component is that dictionary
  as the constructor leaves it. \<open>fut\<close> is the address of the new future.
\<close>

definition RPCCall_init ::
  "int \<Rightarrow> string \<Rightarrow> pydict option \<Rightarrow> RouteData \<Rightarrow> nat \<Rightarrow> RPCCall \<times> pydict option" where
  "RPCCall_init cid m ps route fut =
     (case ps of
        Some d \<Rightarrow>
          if d \<noteq> [] \<and> dict_in ''auth'' d
          then (\<lparr>call_id = cid, call_method = m, params = Some (dict_del d ''auth''),
                 call_src = src route, call_dst = dst route, resolve = fut,
                 auth = dict_get d ''auth''\<rparr>,
                Some (dict_del d ''auth''))
          else (\<lparr>call_id = cid, call_method = m, params = Some d,
                 call_src = src route, call_dst = dst route, resolve = fut,
                 auth = PDict []\<rparr>,
                Some d)
      | None \<Rightarrow>
          (\<lparr>call_id = cid, call_method = m, params = None,
            call_src = src route, call_dst = dst route, resolve = fut,
            auth = PDict []\<rparr>,
           None))"

text \<open>\<^verbatim>\<open>RPCCall.request_frame\<close>: the keys in the order the code inserts them.\<close>

definition request_frame :: "RPCCall \<Rightarrow> pydict" where
  "request_frame c =
     [(''id'', PInt (call_id c)), (''method'', PStr (call_method c)), (''src'', call_src c)]
     @ (if truthy (auth c) then [(''auth'', auth c)] else [])
     @ (case params c of None \<Rightarrow> [] | Some d \<Rightarrow> [(''params'', PDict d)])
     @ (if call_dst c \<noteq> PNone then [(''dst'', call_dst c)] else [])"


section \<open>Futures, the transport and the engine\<close>

text \<open>
  An \<^verbatim>\<open>asyncio.Future\<close> is pending, finished with a result (here always a frame) or
  cancelled. \<^verbatim>\<open>cancel()\<close> changes a pending future only; \<^verbatim>\<open>set_result\<close> raises
  \<^verbatim>\<open>InvalidStateError\<close> on a future that is not pending.
\<close>

datatype future = Pending | Finished pydict | Cancelled

definition cancel :: "future \<Rightarrow> future" where
  "cancel fut = (if fut = Pending then Cancelled else fut)"

definition cancelled :: "future \<Rightarrow> bool" where
  "cancelled fut = (fut = Cancelled)"

definition set_result :: "future \<Rightarrow> pydict \<Rightarrow> error + future" where
  "set_result fut v = (if fut = Pending then Inr (Finished v) else Inl InvalidStateError)"

text \<open>
  The websocket (\<^verbatim>\<open>ClientWebSocketResponse\<close>) belongs to aiohttp. The model keeps its
  \<^verbatim>\<open>closed\<close> flag and the frames handed to \<^verbatim>\<open>send_json\<close>; a failure of the library's
  own send is not modelled.
\<close>

record transport =
  closed :: bool
  sent :: "pydict list"

text \<open>The warnings \<^verbatim>\<open>_handle_frame\<close> logs; debug messages are left out.\<close>

datatype log_record =
    Remote_src_changed pyval pyval
  | Unknown_request_id pyval
  | Invalid_frame pydict

text \<open>
  The fields of \<^verbatim>\<open>WsRPC\<close> (\<^verbatim>\<open>_auth\<close>, \<^verbatim>\<open>_client\<close>, \<^verbatim>\<open>_calls\<close>, \<^verbatim>\<open>_call_id\<close>,
  \<^verbatim>\<open>_route\<close>), followed by what the engine shares with its environment: the store of
  websockets (\<^verbatim>\<open>_client\<close> is a reference into it), the store of futures, the ids of the
  \<^verbatim>\<open>_handle_call\<close> tasks created and not yet run, the argument lists the notification
  callback was invoked with, and the warnings logged.
\<close>

record WsRPC =
  self_auth :: pydict
  self_client :: "nat option"
  self_calls :: "(int \<times> RPCCall) list"
  self_call_id :: int
  self_route :: RouteData
  sockets :: "nat \<Rightarrow> transport"
  futures :: "nat \<Rightarrow> future"
  next_future :: nat
  tasks :: "pyval list"
  notified :: "pyval list list"
  warnings :: "log_record list"

text \<open>
  \<^verbatim>\<open>WsRPC.__init__\<close>; \<open>tag\<close> is the local tag \<^verbatim>\<open>f"aios-{id(self)}"\<close>, \<open>socks\<close> the
  websockets of the environment.
\<close>

definition WsRPC_init :: "string \<Rightarrow> (nat \<Rightarrow> transport) \<Rightarrow> WsRPC" where
  "WsRPC_init tag socks =
     \<lparr>self_auth = [], self_client = None, self_calls = [], self_call_id = 0,
      self_route = \<lparr>src = PStr tag, dst = PNone\<rparr>,
      sockets = socks, futures = (\<lambda>_. Pending), next_future = 0,
      tasks = [], notified = [], warnings = []\<rparr>"

text \<open>The property \<^verbatim>\<open>connected\<close>.\<close>

definition connected :: "WsRPC \<Rightarrow> bool" where
  "connected st = (case self_client st of None \<Rightarrow> False | Some a \<Rightarrow> \<not> closed (sockets st a))"

definition set_auth :: "WsRPC \<Rightarrow> pydict \<Rightarrow> WsRPC" where
  "set_auth st a = st\<lparr>self_auth := a\<rparr>"

definition close_socket :: "WsRPC \<Rightarrow> nat \<Rightarrow> WsRPC" where
  "close_socket st a = st\<lparr>sockets := (sockets st)(a := (sockets st a)\<lparr>closed := True\<rparr>)\<rparr>"

text \<open>\<^verbatim>\<open>disconnect\<close> closes the websocket and leaves \<^verbatim>\<open>_client\<close> as it is.\<close>

definition disconnect :: "WsRPC \<Rightarrow> WsRPC" where
  "disconnect st = (case self_client st of None \<Rightarrow> st | Some a \<Rightarrow> close_socket st a)"

text \<open>\<^verbatim>\<open>_send_json\<close>: asserts the client and hands the frame to the websocket.\<close>

definition send_json :: "WsRPC \<Rightarrow> pydict \<Rightarrow> error + WsRPC" where
  "send_json st data =
     (case self_client st of
        None \<Rightarrow> Inl AssertionError
      | Some a \<Rightarrow>
          Inr (st\<lparr>sockets := (sockets st)(a := (sockets st a)\<lparr>sent := sent (sockets st a) @ [data]\<rparr>)\<rparr>))"


section \<open>Issuing a call\<close>

text \<open>
  \<^verbatim>\<open>WsRPC.call\<close>, from its first line to the construction of the call and its
  registration (everything before the frame is handed to \<^verbatim>\<open>_send_json\<close>). With a
  credential set, \<^verbatim>\<open>params\<close> that is \<^verbatim>\<open>None\<close> or empty is rebound to a new
  dictionary, and the credential is stored under \<^verbatim>\<open>"auth"\<close> unless that key is there.
  The result holds the new state, the call, and the caller's own \<^verbatim>\<open>params\<close> argument
  as the call leaves it: the constructor changes it only when it received that very
  object.
\<close>

definition call_begin ::
  "WsRPC \<Rightarrow> string \<Rightarrow> pydict option \<Rightarrow> error + (WsRPC \<times> RPCCall \<times> pydict option)" where
  "call_begin st m ps =
     (if self_client st = None then Inl (RuntimeError ''Not connected'')
      else
        let own = (self_auth st = [] \<or> (ps \<noteq> None \<and> ps \<noteq> Some []));
            ps1 = (if self_auth st \<noteq> []
                   then (let d = (case ps of None \<Rightarrow> [] | Some d \<Rightarrow> d)
                         in Some (if dict_in ''auth'' d then d
                                  else dict_set d ''auth'' (PDict (self_auth st))))
                   else ps);
            cid = self_call_id st + 1;
            (c, ps2) = RPCCall_init cid m ps1 (self_route st) (next_future st)
        in Inr (st\<lparr>self_call_id := cid,
                   futures := (futures st)(next_future st := Pending),
                   next_future := Suc (next_future st),
                   self_calls := dict_set (self_calls st) cid c\<rparr>,
                c,
                if own then ps2 else ps))"

text \<open>\<^verbatim>\<open>call\<close> up to the point where it awaits its future: the frame has been sent.\<close>

definition call_issue ::
  "WsRPC \<Rightarrow> string \<Rightarrow> pydict option \<Rightarrow> error + (WsRPC \<times> RPCCall \<times> pydict option)" where
  "call_issue st m ps =
     (case call_begin st m ps of
        Inl e \<Rightarrow> Inl e
      | Inr (st1, c, ps') \<Rightarrow>
          (case send_json st1 (request_frame c) of
             Inl e \<Rightarrow> Inl e
           | Inr st2 \<Rightarrow> Inr (st2, c, ps')))"

text \<open>
  What \<^verbatim>\<open>call\<close> does with the frame \<open>resp\<close> its future was resolved with. Inside the
  \<^verbatim>\<open>try\<close> only \<^verbatim>\<open>KeyError\<close> is caught; a \<^verbatim>\<open>TypeError\<close> of the subscriptions
  leaves the function as it is.
\<close>

definition call_result :: "pydict \<Rightarrow> error + pyval" where
  "call_result resp =
     (if dict_in ''result'' resp then Inr (dict_get resp ''result'')
      else
        (case py_getitem (PDict resp) ''error'' of
           Inl (KeyError k) \<Rightarrow> Inl (RPCError_bad_response resp)
         | Inl e \<Rightarrow> Inl e
         | Inr err \<Rightarrow>
             (case py_getitem err ''code'' of
                Inl (KeyError k) \<Rightarrow> Inl (RPCError_bad_response resp)
              | Inl e \<Rightarrow> Inl e
              | Inr code \<Rightarrow>
                  (case py_getitem err ''message'' of
                     Inl (KeyError k) \<Rightarrow> Inl (RPCError_bad_response resp)
                   | Inl e \<Rightarrow> Inl e
                   | Inr msg \<Rightarrow> Inl (JSONRPCError code msg)))))"

text \<open>
  The outcome of \<^verbatim>\<open>call\<close> once it is past the send, read from the call's future:
  \<open>None\<close> while the future is pending (the caller is still suspended), the
  \<^verbatim>\<open>CancelledError\<close> of a cancelled future, and \<open>call_result\<close> of the frame otherwise.
  The timeout is not modelled.
\<close>

definition call_finish :: "WsRPC \<Rightarrow> RPCCall \<Rightarrow> (error + pyval) option" where
  "call_finish st c =
     (case futures st (resolve c) of
        Pending \<Rightarrow> None
      | Cancelled \<Rightarrow> Some (Inl CancelledError)
      | Finished resp \<Rightarrow> Some (call_result resp))"

section \<open>Inbound frames\<close>


text \<open>
  The key of \<^verbatim>\<open>_calls\<close> (whose keys are integers) that a value hashes and compares
  equal to, if any: \<^verbatim>\<open>True\<close> is the key 1. Lists and dictionaries are unhashable, and
  \<^verbatim>\<open>frame_id not in self._calls\<close> raises \<^verbatim>\<open>TypeError\<close> on them.
\<close>

fun calls_key :: "pyval \<Rightarrow> error + int option" where
  "calls_key (PInt n) = Inr (Some n)"
| "calls_key (PBool b) = Inr (Some (if b then 1 else 0))"
| "calls_key PNone = Inr None"
| "calls_key (PStr s) = Inr None"
| "calls_key (PList xs) = Inl TypeError"
| "calls_key (PDict d) = Inl TypeError"

text \<open>Lines 186 to 191 of \<^verbatim>\<open>_handle_frame\<close>: the peer tag.\<close>

definition learn_route :: "WsRPC \<Rightarrow> pydict \<Rightarrow> WsRPC" where
  "learn_route st frame =
     (let peer_src = dict_get frame ''src''
      in if truthy peer_src
         then (if dst (self_route st) \<noteq> PNone \<and> \<not> py_eq peer_src (dst (self_route st))
               then st\<lparr>warnings := warnings st @ [Remote_src_changed (dst (self_route st)) peer_src]\<rparr>
               else st)
              \<lparr>self_route := (self_route st)\<lparr>dst := peer_src\<rparr>\<rparr>
         else st)"

text \<open>Lines 209 to 215: a frame that looks like a response.\<close>

definition handle_response :: "WsRPC \<Rightarrow> pyval \<Rightarrow> pydict \<Rightarrow> error option \<times> WsRPC" where
  "handle_response st frame_id frame =
     (case calls_key frame_id of
        Inl e \<Rightarrow> (Some e, st)
      | Inr None \<Rightarrow> (None, st\<lparr>warnings := warnings st @ [Unknown_request_id frame_id]\<rparr>)
      | Inr (Some k) \<Rightarrow>
          (case map_of (self_calls st) k of
             None \<Rightarrow> (None, st\<lparr>warnings := warnings st @ [Unknown_request_id frame_id]\<rparr>)
           | Some c \<Rightarrow>
               (let st1 = st\<lparr>self_calls := dict_del (self_calls st) k\<rparr>
                in if cancelled (futures st1 (resolve c)) then (None, st1)
                   else (case set_result (futures st1 (resolve c)) frame of
                           Inl e \<Rightarrow> (Some e, st1)
                         | Inr fut \<Rightarrow>
                             (None, st1\<lparr>futures := (futures st1)(resolve c := fut)\<rparr>)))))"

text \<open>
  \<^verbatim>\<open>_handle_frame\<close>. The result is the exception raised, if any, and the state as the
  function leaves it. A decoded value that is not a dictionary has no \<^verbatim>\<open>get\<close>.
\<close>

definition handle_frame :: "WsRPC \<Rightarrow> pyval \<Rightarrow> error option \<times> WsRPC" where
  "handle_frame st v =
     (case v of
        PDict frame \<Rightarrow>
          (let st1 = learn_route st frame;
               frame_id = dict_get frame ''id'';
               m = dict_get frame ''method''
           in if truthy m
              then (let ps = dict_get frame ''params''
                    in if truthy frame_id
                       then (None, st1\<lparr>tasks := tasks st1 @ [frame_id]\<rparr>)
                       else (None, st1\<lparr>notified := notified st1 @ [[m, ps]]\<rparr>))
              else if truthy frame_id
                   then handle_response st1 frame_id frame
                   else (None, st1\<lparr>warnings := warnings st1 @ [Invalid_frame frame]\<rparr>))
      | _ \<Rightarrow> (Some AttributeError, st))"


section \<open>The receive loop\<close>

text \<open>
  A websocket message has a type and, when it is text, the value \<^verbatim>\<open>msg.json()\<close>
  decodes it to (\<open>None\<close> when the text is not JSON and \<^verbatim>\<open>ValueError\<close> is raised).
\<close>

datatype WSMsgType = CONTINUATION | TEXT | BINARY | PING | PONG | CLOSE | CLOSING | CLOSED | ERROR

record WSMessage =
  msg_type :: WSMsgType
  msg_json :: "pyval option"

text \<open>\<^verbatim>\<open>_receive_json_or_raise\<close>, applied to the message \<^verbatim>\<open>receive()\<close> returned.\<close>

definition receive_json_or_raise :: "WSMessage \<Rightarrow> error + pyval" where
  "receive_json_or_raise msg =
     (if msg_type msg \<in> {CLOSE, CLOSED, CLOSING} then Inl ConnectionClosed
      else if msg_type msg = ERROR then Inl ConnectionFailed
      else if msg_type msg \<noteq> TEXT then Inl InvalidMessage
      else (case msg_json msg of None \<Rightarrow> Inl InvalidMessage | Some data \<Rightarrow> Inr data))"

text \<open>
  Modelled from the spec: the constant \<^verbatim>\<open>NOTIFY_WS_CLOSED\<close> of \<^verbatim>\<open>aioshelly/const.py\<close>,
  which is not among the sources; the spec calls the notification "connection-closed".
\<close>

definition NOTIFY_WS_CLOSED :: string where
  "NOTIFY_WS_CLOSED = ''connection-closed''"

text \<open>
  The futures \<^verbatim>\<open>cancel()\<close> is invoked on after the loop, in the order of
  \<^verbatim>\<open>self._calls.values()\<close>, and the loop over them.
\<close>

definition cancel_targets :: "WsRPC \<Rightarrow> nat list" where
  "cancel_targets st = map (\<lambda>e. resolve (snd e)) (self_calls st)"

definition cancel_at :: "WsRPC \<Rightarrow> nat \<Rightarrow> WsRPC" where
  "cancel_at st a = st\<lparr>futures := (futures st)(a := cancel (futures st a))\<rparr>"

text \<open>
  Lines 232 to 242 of \<^verbatim>\<open>_rx_msgs\<close>, run without another task in between: every
  registered call's future is cancelled, the registry cleared, the websocket \<open>a\<close> closed
  unless it is closed, \<^verbatim>\<open>_client\<close> set to \<^verbatim>\<open>None\<close> and the callback invoked with the
  one argument \<^verbatim>\<open>NOTIFY_WS_CLOSED\<close>.
\<close>

definition rx_teardown :: "nat \<Rightarrow> WsRPC \<Rightarrow> WsRPC" where
  "rx_teardown a st =
     (let st1 = foldl cancel_at st (cancel_targets st);
          st2 = st1\<lparr>self_calls := []\<rparr>;
          st3 = (if \<not> closed (sockets st2 a) then close_socket st2 a else st2);
          st4 = st3\<lparr>self_client := None\<rparr>
      in st4\<lparr>notified := notified st4 @ [[PStr NOTIFY_WS_CLOSED]]\<rparr>)"

text \<open>
  The \<^verbatim>\<open>while\<close> loop of \<^verbatim>\<open>_rx_msgs\<close> on the websocket \<open>a\<close>. Its input is the list of
  messages \<^verbatim>\<open>receive()\<close> returns, each with the websocket's \<^verbatim>\<open>closed\<close> flag at the
  moment it returns. The loop is left normally when the websocket is closed or
  \<^verbatim>\<open>ConnectionClosed\<close> is caught; every other exception leaves \<^verbatim>\<open>_rx_msgs\<close> itself;
  with no message left the loop waits.
\<close>

datatype rx_outcome = Left_loop WsRPC | Raised error WsRPC | Waiting WsRPC | Stopped WsRPC

fun rx_loop :: "nat \<Rightarrow> WsRPC \<Rightarrow> (WSMessage \<times> bool) list \<Rightarrow> rx_outcome" where
  "rx_loop a st [] = (if closed (sockets st a) then Left_loop st else Waiting st)"
| "rx_loop a st ((msg, c) # evs) =
     (if closed (sockets st a) then Left_loop st
      else
        let st1 = st\<lparr>sockets := (sockets st)(a := (sockets st a)\<lparr>closed := c\<rparr>)\<rparr>
        in (case receive_json_or_raise msg of
              Inl ConnectionClosed \<Rightarrow> Left_loop st1
            | Inl e \<Rightarrow> Raised e st1
            | Inr frame \<Rightarrow>
                if \<not> closed (sockets st1 a)
                then (case handle_frame st1 frame of
                        (None, st2) \<Rightarrow> rx_loop a st2 evs
                      | (Some e, st2) \<Rightarrow> Raised e st2)
                else rx_loop a st1 evs))"

text \<open>
  \<^verbatim>\<open>_rx_msgs\<close>: the assertion, the loop, and the lines after it when the loop is left
  normally: \<open>Stopped\<close> holds the state after those lines.
\<close>

definition rx_msgs :: "WsRPC \<Rightarrow> (WSMessage \<times> bool) list \<Rightarrow> rx_outcome" where
  "rx_msgs st evs =
     (case self_client st of
        None \<Rightarrow> Raised AssertionError st
      | Some a \<Rightarrow>
          (case rx_loop a st evs of
             Left_loop st' \<Rightarrow> Stopped (rx_teardown a st')
           | r \<Rightarrow> r))"

section \<open>The digest of the authentication handshake\<close>

text \<open>
  \<^verbatim>\<open>str()\<close> of a value, as an f-string formats it. Python's \<^verbatim>\<open>repr\<close> of lists and
  dictionaries is not modelled: the result is \<open>None\<close> for them.
\<close>

definition digit_char :: "nat \<Rightarrow> char" where
  "digit_char n = ''0123456789abcdef'' ! n"

function nat_str :: "nat \<Rightarrow> string" where
  "nat_str n = (if n < 10 then [digit_char n] else nat_str (n div 10) @ [digit_char (n mod 10)])"
  by pat_completeness auto
termination
  by (relation "measure (\<lambda>n. n)") auto

declare nat_str.simps [simp del]

definition int_str :: "int \<Rightarrow> string" where
  "int_str i = (if i < 0 then CHR ''-'' # nat_str (nat (- i)) else nat_str (nat i))"

fun py_str :: "pyval \<Rightarrow> string option" where
  "py_str PNone = Some ''None''"
| "py_str (PBool b) = Some (if b then ''True'' else ''False'')"
| "py_str (PInt i) = Some (int_str i)"
| "py_str (PStr s) = Some s"
| "py_str (PList xs) = None"
| "py_str (PDict d) = None"

text \<open>
  \<^verbatim>\<open>hex_hash\<close>. \<^verbatim>\<open>hashlib.sha256\<close> is a parameter, a function from the bytes of the
  message to the bytes of the digest; \<^verbatim>\<open>hexdigest\<close> writes each byte as two lowercase
  hexadecimal digits.
\<close>

definition hexdigest :: "string \<Rightarrow> string" where
  "hexdigest bs = concat (map (\<lambda>b. [digit_char (of_char b div 16), digit_char (of_char b mod 16)]) bs)"

definition hex_hash :: "(string \<Rightarrow> string) \<Rightarrow> string \<Rightarrow> string" where
  "hex_hash sha256 message = hexdigest (sha256 message)"

text \<open>
  Lines 138 to 157 of \<^verbatim>\<open>connect\<close>: the credential computed from the password, the
  challenge \<open>response_message\<close> (the decoded message of the 401 error) and the client
  nonce \<open>cnonce\<close> drawn by \<^verbatim>\<open>secrets.randbelow(10**8)\<close>. The result is \<open>None\<close> where
  \<open>py_str\<close> is.
\<close>

fun connect_auth :: "(string \<Rightarrow> string) \<Rightarrow> string \<Rightarrow> pyval \<Rightarrow> int \<Rightarrow> (error + pydict) option" where
  "connect_auth sha256 password (PDict d) cnonce =
     (case py_getitem (PDict d) ''realm'' of
        Inl e \<Rightarrow> Some (Inl e)
      | Inr realm \<Rightarrow>
          (case py_str realm of
             None \<Rightarrow> None
           | Some realm_s \<Rightarrow>
               (let ha1 = hex_hash sha256 (''admin'' @ '':'' @ realm_s @ '':'' @ password);
                    ha2 = hex_hash sha256 ''dummy_method:dummy_uri'';
                    d1 = (if \<not> dict_in ''nc'' d then dict_set d ''nc'' (PInt 1) else d)
                in (case py_getitem (PDict d1) ''nonce'' of
                      Inl e \<Rightarrow> Some (Inl e)
                    | Inr nonce \<Rightarrow>
                        (case py_getitem (PDict d1) ''nc'' of
                           Inl e \<Rightarrow> Some (Inl e)
                         | Inr nc \<Rightarrow>
                             (case (py_str nonce, py_str nc) of
                                (Some nonce_s, Some nc_s) \<Rightarrow>
                                  (let hashed = hex_hash sha256
                                         (ha1 @ '':'' @ nonce_s @ '':'' @ nc_s @ '':''
                                          @ int_str cnonce @ '':auth:'' @ ha2)
                                   in Some (Inr [(''realm'', realm), (''username'', PStr ''admin''),
                                                 (''nonce'', nonce), (''cnonce'', PInt cnonce),
                                                 (''response'', PStr hashed),
                                                 (''algorithm'', PStr ''SHA-256'')]))
                              | _ \<Rightarrow> None))))))"
| "connect_auth sha256 password _ cnonce = Some (Inl TypeError)"


section \<open>Observations and example states\<close>

text \<open>The frame a call hands to \<^verbatim>\<open>_send_json\<close>.\<close>

definition call_frame :: "WsRPC \<Rightarrow> string \<Rightarrow> pydict option \<Rightarrow> error + pydict" where
  "call_frame st m ps =
     (case call_begin st m ps of Inl e \<Rightarrow> Inl e | Inr (st', c, ps') \<Rightarrow> Inr (request_frame c))"

text \<open>
  A call that was issued, is in the registry under its id and has no outcome yet: the
  caller is suspended on its future.
\<close>

definition call_pending :: "WsRPC \<Rightarrow> string \<Rightarrow> pydict option \<Rightarrow> bool" where
  "call_pending st m ps =
     (case call_issue st m ps of
        Inl e \<Rightarrow> False
      | Inr (st', c, ps') \<Rightarrow> map_of (self_calls st') (call_id c) = Some c \<and> call_finish st' c = None)"

text \<open>An engine connected to the open websocket 0, with nothing sent or received.\<close>

definition example_sockets :: "nat \<Rightarrow> transport" where
  "example_sockets = (\<lambda>a. \<lparr>closed = False, sent = []\<rparr>)"

definition example_engine :: WsRPC where
  "example_engine = (WsRPC_init ''aios-1'' example_sockets)\<lparr>self_client := Some 0\<rparr>"

text \<open>The caller's own \<^verbatim>\<open>params\<close> argument as a call leaves it.\<close>

definition call_params_after :: "WsRPC \<Rightarrow> string \<Rightarrow> pydict option \<Rightarrow> error + pydict option" where
  "call_params_after st m ps =
     (case call_begin st m ps of Inl e \<Rightarrow> Inl e | Inr (st', c, ps') \<Rightarrow> Inr ps')"


definition tagged_frame :: "string \<Rightarrow> pydict" where
  "tagged_frame t = [(''src'', PStr t), (''method'', PStr ''NotifyStatus'')]"

text \<open>
  The reading of lowercase hexadecimal text, written from the claim's words and not from
  the code: the value of a digit is its place among the sixteen digits (capital letters
  are no digits here), and a string of digit pairs stands for bytes, the high digit
  first.
\<close>

fun position :: "'a \<Rightarrow> 'a list \<Rightarrow> nat option" where
  "position c [] = None"
| "position c (x # xs) = (if c = x then Some 0 else map_option Suc (position c xs))"

definition hex_digit_value :: "char \<Rightarrow> nat option" where
  "hex_digit_value c = position c ''0123456789abcdef''"

fun hex_decode :: "string \<Rightarrow> string option" where
  "hex_decode [] = Some []"
| "hex_decode [c] = None"
| "hex_decode (h # l # cs) =
     (case (hex_digit_value h, hex_digit_value l, hex_decode cs) of
        (Some x, Some y, Some bs) \<Rightarrow> Some (char_of (16 * x + y) # bs)
      | _ \<Rightarrow> None)"

text \<open>
  A stand-in for the digest function that keeps the whole message (the digest is the
  message itself), a challenge without \<^verbatim>\<open>nc\<close>, and the message and the response of
  the handshake run on them.
\<close>

definition identity_digest :: "string \<Rightarrow> string" where
  "identity_digest msg = msg"

definition example_challenge :: pydict where
  "example_challenge = [(''auth_type'', PStr ''digest''), (''nonce'', PInt 1625038762),
                        (''realm'', PStr ''r''), (''algorithm'', PStr ''SHA-256'')]"

definition example_response :: string where
  "example_response =
        ''3631363436643639366533613732336137333a313632353033383736323a313a373a61757468''
        @ ''3a36343735366436643739356636643635373436383666363433613634373536643664373935''
        @ ''66373537323639''"

definition example_response_message :: string where
  "example_response_message =
        ''61646d696e3a723a73:1625038762:1:7:auth:64756d6d795f6d6574686f643a64756d6d795''
        @ ''f757269''"

text \<open>
  The invariant of the registry: the counter is not negative, the keys are distinct, so
  are the futures of the registered calls, and every call is registered under its own
  id, which is positive and at most the counter, with a future that has been allocated.
  It holds initially and is kept by \<^verbatim>\<open>call\<close> and by \<^verbatim>\<open>_handle_frame\<close>.
\<close>

definition registry_inv :: "WsRPC \<Rightarrow> bool" where
  "registry_inv st \<longleftrightarrow>
     0 \<le> self_call_id st \<and>
     distinct (map fst (self_calls st)) \<and>
     distinct (cancel_targets st) \<and>
     (\<forall>e\<in>set (self_calls st).
        call_id (snd e) = fst e \<and> 0 < fst e \<and> fst e \<le> self_call_id st \<and>
        resolve (snd e) < next_future st)"

text \<open>A text message holding the frame \<open>f\<close>, received while the websocket is open.\<close>

definition text_message :: "pydict \<Rightarrow> WSMessage \<times> bool" where
  "text_message f = (\<lparr>msg_type = TEXT, msg_json = Some (PDict f)\<rparr>, False)"

text \<open>The state an outcome of the receive loop holds.\<close>

fun outcome_state :: "rx_outcome \<Rightarrow> WsRPC" where
  "outcome_state (Left_loop st) = st"
| "outcome_state (Raised e st) = st"
| "outcome_state (Waiting st) = st"
| "outcome_state (Stopped st) = st"

text \<open>
  The engine after two calls, the response of the peer to the call \<open>n\<close>, and a close
  message.
\<close>

definition after_call :: "WsRPC \<Rightarrow> string \<Rightarrow> pydict option \<Rightarrow> WsRPC" where
  "after_call st m ps = (case call_issue st m ps of Inl e \<Rightarrow> st | Inr (st', c, ps') \<Rightarrow> st')"

definition two_calls :: WsRPC where
  "two_calls = after_call (after_call example_engine ''Shelly.GetStatus'' None)
                 ''Switch.Set'' (Some [(''id'', PInt 0), (''on'', PBool True)])"

definition response_frame :: "int \<Rightarrow> pydict" where
  "response_frame n = [(''id'', PInt n), (''src'', PStr ''shelly''), (''result'', PDict [])]"

definition close_message :: "WSMessage \<times> bool" where
  "close_message = (\<lparr>msg_type = CLOSE, msg_json = None\<rparr>, True)"

text \<open>
  An error message of the websocket, a binary message and a text message that is not
  JSON.
\<close>

definition error_message :: "WSMessage \<times> bool" where
  "error_message = (\<lparr>msg_type = ERROR, msg_json = None\<rparr>, True)"

definition binary_message :: "WSMessage \<times> bool" where
  "binary_message = (\<lparr>msg_type = BINARY, msg_json = None\<rparr>, False)"

definition undecodable_message :: "WSMessage \<times> bool" where
  "undecodable_message = (\<lparr>msg_type = TEXT, msg_json = None\<rparr>, False)"

section \<open>Properties\<close>

subsection \<open>Dictionaries\<close>

lemma dict_in_iff: "dict_in k d \<longleftrightarrow> k \<in> fst ` set d"
  by (simp add: dict_in_def map_of_eq_None_iff)

lemma dict_del_not_in: "\<not> dict_in k (dict_del d k)"
  by (auto simp: dict_in_iff dict_del_def)

lemma dict_del_absent: "\<not> dict_in k d \<Longrightarrow> dict_del d k = d"
  by (induction d) (auto simp: dict_in_iff dict_del_def)

lemma dict_del_present: "dict_in k d \<Longrightarrow> dict_del d k \<noteq> d"
  using dict_del_not_in [of k d] by auto

lemma dict_set_absent: "k \<notin> fst ` set d \<Longrightarrow> dict_set d k v = d @ [(k, v)]"
  by (induction d) auto

lemma dict_get_set: "dict_get (dict_set d k v) k = v"
  by (induction d) (auto simp: dict_get_def)

lemma dict_in_set: "dict_in k (dict_set d k v)"
  by (induction d) (auto simp: dict_in_def)

lemma dict_del_set_absent: "\<not> dict_in k d \<Longrightarrow> dict_del (dict_set d k v) k = d"
  by (simp add: dict_in_iff dict_set_absent dict_del_def) (induction d; auto)

lemma map_of_dict_del: "map_of (dict_del d k) = (map_of d)(k := None)"
  by (induction d) (auto simp: dict_del_def)

subsection \<open>The outcome of a resolved call\<close>

lemma call_result_result:
  "dict_in ''result'' resp \<Longrightarrow> call_result resp = Inr (dict_get resp ''result'')"
  by (simp add: call_result_def)

lemma call_result_error:
  assumes "\<not> dict_in ''result'' resp" "map_of resp ''error'' = Some (PDict err)"
    "map_of err ''code'' = Some code" "map_of err ''message'' = Some msg"
  shows "call_result resp = Inl (JSONRPCError code msg)"
  using assms by (simp add: call_result_def)

lemma call_result_neither:
  assumes "\<not> dict_in ''result'' resp" "\<not> dict_in ''error'' resp"
  shows "call_result resp = Inl (RPCError_bad_response resp)"
  using assms by (simp add: call_result_def dict_in_def)

text \<open>
  C5. A response frame with a \<^verbatim>\<open>result\<close> is answered with that value, one with an
  \<^verbatim>\<open>error\<close> mapping holding \<^verbatim>\<open>code\<close> and \<^verbatim>\<open>message\<close> with the remote error, one with
  neither key with the bad-response error (the three lemmas above). But the frame
  \<^verbatim>\<open>{"id": 1, "error": "boom"}\<close>, whose \<^verbatim>\<open>error\<close> is not a mapping, makes the call
  raise \<^verbatim>\<open>TypeError\<close>, which the handler for \<^verbatim>\<open>KeyError\<close> does not catch: the call
  does not fail with the bad-response error there.
\<close>

theorem call_result_error_not_a_mapping:
  "call_result [(''id'', PInt 1), (''error'', PStr ''boom'')] = Inl TypeError"
  by (simp add: call_result_def dict_in_def)

subsection \<open>Calls on an engine that is not connected\<close>

lemma call_not_connected:
  "self_client st = None \<Longrightarrow> call_issue st m ps = Inl (RuntimeError ''Not connected'')"
  by (simp add: call_issue_def call_begin_def)

text \<open>
  C2. With \<^verbatim>\<open>_client\<close> unset a call fails with "Not connected" (the lemma above). After
  \<^verbatim>\<open>disconnect\<close> the websocket is closed and \<^verbatim>\<open>_client\<close> still refers to it: the engine
  is not \<open>connected\<close>, yet a call does not fail with "Not connected"; it is registered,
  its frame is handed to the websocket and the caller waits on the pending future.
\<close>

theorem call_on_closed_socket:
  "\<not> connected (disconnect example_engine) \<and>
   call_issue (disconnect example_engine) ''Sys.GetStatus'' None \<noteq> Inl (RuntimeError ''Not connected'') \<and>
   call_pending (disconnect example_engine) ''Sys.GetStatus'' None"
  by (simp add: connected_def disconnect_def example_engine_def example_sockets_def WsRPC_init_def
      close_socket_def call_issue_def call_begin_def RPCCall_init_def send_json_def call_pending_def
      call_finish_def)

subsection \<open>More on dictionaries\<close>

lemma map_of_dict_set: "map_of (dict_set d k v) = (map_of d)(k \<mapsto> v)"
  by (induction d) auto

lemma dict_get_other: "k' \<noteq> k \<Longrightarrow> dict_get (dict_set d k v) k' = dict_get d k'"
  by (simp add: dict_get_def map_of_dict_set)

lemma dict_set_not_Nil [simp]: "dict_set d k v \<noteq> []"
  by (cases d) (auto split: if_splits)

subsection \<open>The frame of a call\<close>

text \<open>
  C7, as the code has it. The frame of a call issued on an engine whose \<^verbatim>\<open>_client\<close>
  is set holds, in this order: \<^verbatim>\<open>id\<close>, the next call id; \<^verbatim>\<open>method\<close>; \<^verbatim>\<open>src\<close>, the
  local tag; \<^verbatim>\<open>auth\<close> if and only if the credential in effect is truthy, where the
  credential in effect is the value the caller supplied under \<^verbatim>\<open>"auth"\<close> in
  \<^verbatim>\<open>params\<close> and the credential set by \<^verbatim>\<open>set_auth\<close> otherwise; \<^verbatim>\<open>params\<close> if and
  only if the caller passed \<^verbatim>\<open>params\<close> or a credential is set, its value being the
  caller's mapping without the key \<^verbatim>\<open>"auth"\<close> (the empty mapping when the caller
  passed none); \<^verbatim>\<open>dst\<close> if and only if a peer tag has been learned.
\<close>

theorem call_frame_contents:
  assumes "self_client st \<noteq> None"
  shows "call_frame st m ps = Inr
     ([(''id'', PInt (self_call_id st + 1)), (''method'', PStr m), (''src'', src (self_route st))]
      @ (let cred = (case ps of
                       None \<Rightarrow> PDict (self_auth st)
                     | Some d \<Rightarrow> if dict_in ''auth'' d then dict_get d ''auth'' else PDict (self_auth st))
         in if truthy cred then [(''auth'', cred)] else [])
      @ (case ps of
           None \<Rightarrow> if self_auth st = [] then [] else [(''params'', PDict [])]
         | Some d \<Rightarrow> [(''params'', PDict (dict_del d ''auth''))])
      @ (if dst (self_route st) \<noteq> PNone then [(''dst'', dst (self_route st))] else []))"
proof (cases ps)
  case None
  with assms show ?thesis
    by (simp add: call_frame_def call_begin_def RPCCall_init_def request_frame_def Let_def
        dict_in_def dict_get_def dict_del_def)
next
  case (Some d)
  show ?thesis
  proof (cases "dict_in ''auth'' d")
    case True
    then have "d \<noteq> []" by (auto simp: dict_in_def)
    with assms Some True show ?thesis
      by (simp add: call_frame_def call_begin_def RPCCall_init_def request_frame_def Let_def)
  next
    case False
    with assms Some show ?thesis
      by (simp add: call_frame_def call_begin_def RPCCall_init_def request_frame_def Let_def
          dict_in_set dict_get_set dict_del_set_absent dict_del_absent)
  qed
qed

theorem call_frame_contents_witness:
  "self_client (set_auth example_engine [(''realm'', PStr ''r'')]) \<noteq> None \<and>
   call_frame (set_auth example_engine [(''realm'', PStr ''r'')]) ''Switch.Set''
       (Some [(''id'', PInt 0), (''on'', PBool True)])
     = Inr [(''id'', PInt 1), (''method'', PStr ''Switch.Set''), (''src'', PStr ''aios-1''),
            (''auth'', PDict [(''realm'', PStr ''r'')]),
            (''params'', PDict [(''id'', PInt 0), (''on'', PBool True)])]"
  using call_frame_contents [of "set_auth example_engine [(''realm'', PStr ''r'')]" "''Switch.Set''"
      "Some [(''id'', PInt 0), (''on'', PBool True)]"]
  by (simp add: set_auth_def example_engine_def WsRPC_init_def dict_in_def dict_del_def)

text \<open>
  The claim C7 as stated fails: with a credential set and no \<^verbatim>\<open>params\<close> passed, the
  frame holds \<^verbatim>\<open>"params": {}\<close>.
\<close>

theorem call_frame_params_unasked:
  "call_frame (set_auth example_engine [(''realm'', PStr ''r'')]) ''Sys.GetStatus'' None
     = Inr [(''id'', PInt 1), (''method'', PStr ''Sys.GetStatus''), (''src'', PStr ''aios-1''),
            (''auth'', PDict [(''realm'', PStr ''r'')]), (''params'', PDict [])]"
  by (simp add: call_frame_def call_begin_def RPCCall_init_def request_frame_def Let_def
      set_auth_def example_engine_def WsRPC_init_def dict_in_def dict_get_def dict_del_def)

subsection \<open>The caller's parameters\<close>

text \<open>
  C10. A call issued on an engine whose \<^verbatim>\<open>_client\<close> is set leaves the caller's
  \<^verbatim>\<open>params\<close> mapping without the key \<^verbatim>\<open>"auth"\<close>: an entry the caller supplied is
  deleted from the caller's own mapping, which is therefore changed; a credential the
  call stored there itself is deleted again.
\<close>

theorem call_deletes_auth_of_params:
  assumes "self_client st \<noteq> None"
  shows "call_params_after st m (Some d) = Inr (Some (dict_del d ''auth'')) \<and>
         \<not> dict_in ''auth'' (dict_del d ''auth'') \<and>
         (dict_in ''auth'' d \<longrightarrow> dict_del d ''auth'' \<noteq> d)"
proof -
  have "call_params_after st m (Some d) = Inr (Some (dict_del d ''auth''))"
  proof (cases "dict_in ''auth'' d")
    case True
    then have "d \<noteq> []" by (auto simp: dict_in_def)
    with assms True show ?thesis
      by (simp add: call_params_after_def call_begin_def RPCCall_init_def Let_def)
  next
    case False
    show ?thesis
    proof (cases "d = []")
      case True
      with assms show ?thesis
        by (simp add: call_params_after_def call_begin_def RPCCall_init_def Let_def
            dict_in_def dict_del_def)
    next
      case nonempty: False
      with assms False show ?thesis
        by (simp add: call_params_after_def call_begin_def RPCCall_init_def Let_def
            dict_in_set dict_del_set_absent dict_del_absent)
    qed
  qed
  then show ?thesis
    by (simp add: dict_del_not_in dict_del_present)
qed

theorem call_deletes_auth_of_params_witness:
  "self_client example_engine \<noteq> None \<and>
   call_params_after example_engine ''Sys.GetStatus''
       (Some [(''auth'', PDict [(''realm'', PStr ''r'')]), (''x'', PInt 1)])
     = Inr (Some [(''x'', PInt 1)])"
  using call_deletes_auth_of_params [of example_engine "''Sys.GetStatus''"
      "[(''auth'', PDict [(''realm'', PStr ''r'')]), (''x'', PInt 1)]"]
  by (simp add: example_engine_def WsRPC_init_def dict_del_def)

subsection \<open>Calls of the peer\<close>

lemma learn_route_fields [simp]:
  "self_calls (learn_route st frame) = self_calls st"
  "futures (learn_route st frame) = futures st"
  "tasks (learn_route st frame) = tasks st"
  "notified (learn_route st frame) = notified st"
  "self_client (learn_route st frame) = self_client st"
  "sockets (learn_route st frame) = sockets st"
  "self_auth (learn_route st frame) = self_auth st"
  "self_call_id (learn_route st frame) = self_call_id st"
  "next_future (learn_route st frame) = next_future st"
  "src (self_route (learn_route st frame)) = src (self_route st)"
  by (simp_all add: learn_route_def Let_def)





subsection \<open>Fields are tested for their truth value\<close>

text \<open>
  C9. \<^verbatim>\<open>_handle_frame\<close> tests the truth value of \<^verbatim>\<open>id\<close>, \<^verbatim>\<open>method\<close> and \<^verbatim>\<open>src\<close>;
  0, the empty string and a missing field are all falsy. A frame with a truthy method
  and a falsy id goes to the notification callback and creates no task; a frame with a
  falsy method and a falsy id is logged as an invalid frame and nothing else happens; a
  frame with a falsy method and a truthy id is treated as a response; a falsy \<^verbatim>\<open>src\<close>
  leaves the state, and so the peer tag, as it is.
\<close>

theorem fields_tested_for_truth:
  "(\<not> truthy (dict_get frame ''id'') \<and> truthy (dict_get frame ''method'') \<longrightarrow>
      handle_frame st (PDict frame) =
        (None, (learn_route st frame)\<lparr>notified := notified st @
                  [[dict_get frame ''method'', dict_get frame ''params'']]\<rparr>)) \<and>
   (\<not> truthy (dict_get frame ''id'') \<and> \<not> truthy (dict_get frame ''method'') \<longrightarrow>
      handle_frame st (PDict frame) =
        (None, (learn_route st frame)\<lparr>warnings := warnings (learn_route st frame) @
                  [Invalid_frame frame]\<rparr>)) \<and>
   (\<not> truthy (dict_get frame ''method'') \<and> truthy (dict_get frame ''id'') \<longrightarrow>
      handle_frame st (PDict frame) =
        handle_response (learn_route st frame) (dict_get frame ''id'') frame) \<and>
   (\<not> truthy (dict_get frame ''src'') \<longrightarrow> learn_route st frame = st) \<and>
   \<not> truthy (PInt 0) \<and> \<not> truthy (PStr '''') \<and>
   (\<not> dict_in k frame \<longrightarrow> \<not> truthy (dict_get frame k))"
  by (simp add: handle_frame_def Let_def learn_route_def dict_in_def dict_get_def)

theorem fields_tested_for_truth_witness:
  "handle_frame example_engine (PDict [(''id'', PInt 0), (''method'', PStr ''Foo'')]) =
     (None, example_engine\<lparr>notified := [[PStr ''Foo'', PNone]]\<rparr>) \<and>
   handle_frame example_engine (PDict [(''id'', PInt 0), (''result'', PDict [])]) =
     (None, example_engine\<lparr>warnings := [Invalid_frame [(''id'', PInt 0), (''result'', PDict [])]]\<rparr>) \<and>
   handle_frame example_engine (PDict [(''id'', PInt 5), (''method'', PStr '''')]) =
     handle_response example_engine (PInt 5) [(''id'', PInt 5), (''method'', PStr '''')] \<and>
   learn_route example_engine [(''src'', PStr ''''), (''method'', PStr ''NotifyStatus'')] = example_engine"
  using fields_tested_for_truth [of "[(''id'', PInt 0), (''method'', PStr ''Foo'')]" example_engine "''src''"]
    fields_tested_for_truth [of "[(''id'', PInt 0), (''result'', PDict [])]" example_engine "''src''"]
    fields_tested_for_truth [of "[(''id'', PInt 5), (''method'', PStr '''')]" example_engine "''src''"]
    fields_tested_for_truth [of "[(''src'', PStr ''''), (''method'', PStr ''NotifyStatus'')]" example_engine "''id''"]
  by (simp add: dict_get_def dict_in_def example_engine_def WsRPC_init_def)

subsection \<open>The peer tag\<close>

lemma handle_response_error_cong:
  assumes "self_calls s = self_calls t" and "futures s = futures t"
  shows "fst (handle_response s i f) = fst (handle_response t i f)"
  using assms by (simp add: handle_response_def Let_def split: sum.splits option.splits)

lemma handle_frame_error_cong:
  assumes "self_calls s = self_calls t" and "futures s = futures t"
  shows "fst (handle_frame s v) = fst (handle_frame t v)"
proof (cases v)
  case (PDict frame)
  have "fst (handle_response (learn_route s frame) i frame)
      = fst (handle_response (learn_route t frame) i frame)" for i
    using assms by (intro handle_response_error_cong) simp_all
  with PDict show ?thesis
    by (simp add: handle_frame_def Let_def)
qed (simp_all add: handle_frame_def)

lemma handle_frame_error_route:
  "fst (handle_frame (st\<lparr>self_route := r\<rparr>) v) = fst (handle_frame st v)"
  by (rule handle_frame_error_cong) simp_all

lemma handle_response_warnings:
  "\<exists>extra. warnings (snd (handle_response st i f)) = warnings st @ extra \<and>
     (\<forall>w\<in>set extra. \<forall>x y. w \<noteq> Remote_src_changed x y)"
  by (auto simp add: handle_response_def Let_def split: sum.splits option.splits)

lemma handle_response_route:
  "self_route (snd (handle_response st i f)) = self_route st"
  by (simp add: handle_response_def Let_def split: sum.splits option.splits)

text \<open>
  C8, as the code has it. For every inbound frame carrying a truthy (non-empty)
  \<^verbatim>\<open>src\<close> tag, the peer tag is that tag afterwards, whatever was recorded before;
  the warning "Remote src changed" is logged exactly when a peer tag was recorded and
  the new one is not equal to it, and no other warning of that kind is logged; whether
  \<^verbatim>\<open>_handle_frame\<close> raises does not depend on the peer tag recorded, so a change of
  tag never raises an error, nor stops the receive loop.
\<close>

theorem peer_tag_recorded:
  assumes "truthy (dict_get frame ''src'')"
  shows "dst (self_route (snd (handle_frame st (PDict frame)))) = dict_get frame ''src'' \<and>
         (\<exists>extra. warnings (snd (handle_frame st (PDict frame))) =
              warnings st
              @ (if dst (self_route st) \<noteq> PNone \<and> \<not> py_eq (dict_get frame ''src'') (dst (self_route st))
                 then [Remote_src_changed (dst (self_route st)) (dict_get frame ''src'')] else [])
              @ extra \<and>
            (\<forall>w\<in>set extra. \<forall>x y. w \<noteq> Remote_src_changed x y)) \<and>
         (\<forall>d. fst (handle_frame (st\<lparr>self_route := (self_route st)\<lparr>dst := d\<rparr>\<rparr>) (PDict frame))
               = fst (handle_frame st (PDict frame)))"
proof -
  let ?st1 = "learn_route st frame"
  have r: "dst (self_route ?st1) = dict_get frame ''src''"
    using assms by (simp add: learn_route_def Let_def)
  have w: "warnings ?st1 = warnings st
      @ (if dst (self_route st) \<noteq> PNone \<and> \<not> py_eq (dict_get frame ''src'') (dst (self_route st))
         then [Remote_src_changed (dst (self_route st)) (dict_get frame ''src'')] else [])"
    using assms by (simp add: learn_route_def Let_def)
  have 1: "dst (self_route (snd (handle_frame st (PDict frame)))) = dict_get frame ''src''"
    using r by (simp add: handle_frame_def Let_def handle_response_route)
  obtain extra where e: "warnings (snd (handle_response ?st1 (dict_get frame ''id'') frame)) = warnings ?st1 @ extra"
    "\<forall>w\<in>set extra. \<forall>x y. w \<noteq> Remote_src_changed x y"
    using handle_response_warnings by blast
  have 2: "\<exists>extra. warnings (snd (handle_frame st (PDict frame))) = warnings ?st1 @ extra \<and>
            (\<forall>w\<in>set extra. \<forall>x y. w \<noteq> Remote_src_changed x y)"
  proof (cases "truthy (dict_get frame ''method'')")
    case True
    then show ?thesis by (simp add: handle_frame_def Let_def)
  next
    case False
    show ?thesis
    proof (cases "truthy (dict_get frame ''id'')")
      case True
      with False e show ?thesis by (simp add: handle_frame_def Let_def)
    next
      case nid: False
      with False show ?thesis by (simp add: handle_frame_def Let_def)
    qed
  qed
  from 1 2 w show ?thesis
    by (simp add: handle_frame_error_route)
qed

theorem peer_tag_recorded_witness:
  "truthy (dict_get (tagged_frame ''Y'') ''src'') \<and>
   dst (self_route (snd (handle_frame example_engine (PDict (tagged_frame ''X''))))) = PStr ''X'' \<and>
   warnings (snd (handle_frame example_engine (PDict (tagged_frame ''X'')))) = [] \<and>
   dst (self_route (snd (handle_frame (snd (handle_frame example_engine (PDict (tagged_frame ''X''))))
          (PDict (tagged_frame ''Y''))))) = PStr ''Y'' \<and>
   warnings (snd (handle_frame (snd (handle_frame example_engine (PDict (tagged_frame ''X''))))
          (PDict (tagged_frame ''Y'')))) = [Remote_src_changed (PStr ''X'') (PStr ''Y'')] \<and>
   fst (handle_frame (snd (handle_frame example_engine (PDict (tagged_frame ''X''))))
          (PDict (tagged_frame ''Y''))) = None"
  using peer_tag_recorded [of "tagged_frame ''Y''"
      "snd (handle_frame example_engine (PDict (tagged_frame ''X'')))"]
  by (simp add: tagged_frame_def dict_get_def handle_frame_def learn_route_def Let_def
      example_engine_def WsRPC_init_def)

text \<open>
  The claim C8 as stated fails: a frame whose \<^verbatim>\<open>src\<close> is the empty string carries
  the field, no peer tag is recorded yet, and none is recorded.
\<close>

theorem empty_tag_not_recorded:
  "dict_in ''src'' (tagged_frame '''') \<and>
   dst (self_route example_engine) = PNone \<and>
   dst (self_route (snd (handle_frame example_engine (PDict (tagged_frame ''''))))) = PNone"
  by (simp add: tagged_frame_def dict_in_def dict_get_def handle_frame_def learn_route_def Let_def
      example_engine_def WsRPC_init_def)

subsection \<open>The digest\<close>

lemma digit_char_hex: "n < 16 \<Longrightarrow> digit_char n \<in> set ''0123456789abcdef''"
  unfolding digit_char_def by (rule nth_mem) simp

lemma of_char_byte: "(of_char b :: nat) < 256"
proof -
  have "(of_char b :: nat) mod 256 = of_char b" by (rule of_char_mod_256)
  moreover have "(of_char b :: nat) mod 256 < 256" by simp
  ultimately show ?thesis by simp
qed

lemma hexdigest_lowercase: "set (hexdigest bs) \<subseteq> set ''0123456789abcdef''"
proof -
  define H where "H = set ''0123456789abcdef''"
  have d: "digit_char n \<in> H" if "n < 16" for n
    unfolding H_def by (rule digit_char_hex [OF that])
  have "digit_char (of_char b div 16) \<in> H" "digit_char (of_char b mod 16) \<in> H" for b
    using of_char_byte [of b] by (auto intro!: d simp: div_less_iff_less_mult)
  then have "set (hexdigest bs) \<subseteq> H"
    unfolding hexdigest_def by auto
  then show ?thesis
    unfolding H_def .
qed

lemma hexdigest_length: "length (hexdigest bs) = 2 * length bs"
  by (induction bs) (simp_all add: hexdigest_def)

lemma int_str_1: "int_str 1 = ''1''"
  by (simp add: int_str_def nat_str.simps digit_char_def)

lemma hex_digit_value_digit_char:
  assumes "n < 16"
  shows "hex_digit_value (digit_char n) = Some n"
proof -
  from assms have "n \<in> {0, 1, 2, 3, 4, 5, 6, 7, 8, 9, 10, 11, 12, 13, 14, 15}"
    by simp arith
  then show ?thesis
    by (auto simp: digit_char_def hex_digit_value_def)
qed

lemma hex_decode_hexdigest: "hex_decode (hexdigest bs) = Some bs"
proof (induction bs)
  case Nil
  then show ?case by (simp add: hexdigest_def)
next
  case (Cons b bs)
  have hi: "(of_char b :: nat) div 16 < 16" and lo: "(of_char b :: nat) mod 16 < 16"
    using of_char_byte [of b] by (simp_all add: div_less_iff_less_mult)
  have "hexdigest (b # bs) =
      digit_char (of_char b div 16) # digit_char (of_char b mod 16) # hexdigest bs"
    by (simp add: hexdigest_def)
  with Cons show ?case
    by (simp add: hex_digit_value_digit_char [OF hi] hex_digit_value_digit_char [OF lo])
qed

text \<open>
  C3. For every password \<open>s\<close>, every challenge with the realm \<open>r\<close>, a nonce and
  possibly a nonce count, the latter two written \<open>n\<close> and \<open>nc\<close> by \<^verbatim>\<open>str()\<close>, and
  every client nonce \<open>c\<close>, the credential holds the response
  \<open>H (H (admin:r:s) : n : nc : c :auth: H (dummy_method:dummy_uri))\<close>, where \<open>H\<close> is
  \<^verbatim>\<open>hex_hash\<close>, the user name is always "admin" and \<open>nc\<close> is "1" when the challenge
  has none. \<^verbatim>\<open>hex_hash\<close> is the digest of the bytes of the message in lowercase
  hexadecimal: two digits a byte, all of them lowercase hexadecimal digits, and read
  back as hexadecimal text they give the bytes of the digest. The credential is a
  function of these inputs.
\<close>

theorem connect_auth_digest:
  assumes "map_of d ''realm'' = Some (PStr r)"
    and "map_of d ''nonce'' = Some nonce"
    and "py_str nonce = Some n"
    and "py_str (case map_of d ''nc'' of None \<Rightarrow> PInt 1 | Some v \<Rightarrow> v) = Some nc"
  shows "connect_auth sha256 s (PDict d) c =
           Some (Inr [(''realm'', PStr r), (''username'', PStr ''admin''), (''nonce'', nonce),
                      (''cnonce'', PInt c),
                      (''response'', PStr (hex_hash sha256
                          (hex_hash sha256 (''admin:'' @ r @ '':'' @ s) @ '':'' @ n @ '':'' @ nc
                           @ '':'' @ int_str c @ '':auth:''
                           @ hex_hash sha256 ''dummy_method:dummy_uri''))),
                      (''algorithm'', PStr ''SHA-256'')]) \<and>
         (map_of d ''nc'' = None \<longrightarrow> nc = ''1'') \<and>
         hex_hash sha256 x = hexdigest (sha256 x) \<and>
         set (hexdigest bs) \<subseteq> set ''0123456789abcdef'' \<and>
         length (hexdigest bs) = 2 * length bs \<and>
         hex_decode (hexdigest bs) = Some bs \<and>
         hex_decode (hex_hash sha256 x) = Some (sha256 x)"
proof -
  have nc1: "map_of d ''nc'' = None \<longrightarrow> nc = ''1''"
    using assms(4) by (auto simp: int_str_1)
  have "connect_auth sha256 s (PDict d) c =
           Some (Inr [(''realm'', PStr r), (''username'', PStr ''admin''), (''nonce'', nonce),
                      (''cnonce'', PInt c),
                      (''response'', PStr (hex_hash sha256
                          (hex_hash sha256 (''admin:'' @ r @ '':'' @ s) @ '':'' @ n @ '':'' @ nc
                           @ '':'' @ int_str c @ '':auth:''
                           @ hex_hash sha256 ''dummy_method:dummy_uri''))),
                      (''algorithm'', PStr ''SHA-256'')])"
  proof (cases "map_of d ''nc''")
    case None
    with assms nc1 show ?thesis
      by (simp add: dict_in_def map_of_dict_set Let_def int_str_1)
  next
    case (Some v)
    with assms show ?thesis
      by (simp add: dict_in_def Let_def)
  qed
  then show ?thesis
    using nc1 hexdigest_lowercase hexdigest_length
    by (simp add: hex_hash_def hex_decode_hexdigest del: set_simps)
qed

theorem connect_auth_digest_witness:
  "map_of example_challenge ''realm'' = Some (PStr ''r'') \<and>
   map_of example_challenge ''nonce'' = Some (PInt 1625038762) \<and>
   py_str (PInt 1625038762) = Some ''1625038762'' \<and>
   map_of example_challenge ''nc'' = None \<and>
   hex_hash identity_digest ''admin:r:s'' = ''61646d696e3a723a73'' \<and>
   hex_hash identity_digest ''dummy_method:dummy_uri''
     = ''64756d6d795f6d6574686f643a64756d6d795f757269'' \<and>
   connect_auth identity_digest ''s'' (PDict example_challenge) 7 =
     Some (Inr [(''realm'', PStr ''r''), (''username'', PStr ''admin''),
                (''nonce'', PInt 1625038762), (''cnonce'', PInt 7),
                (''response'', PStr example_response),
                (''algorithm'', PStr ''SHA-256'')]) \<and>
   hex_decode example_response = Some example_response_message"
proof -
  have 1: "map_of example_challenge ''realm'' = Some (PStr ''r'')"
    and 2: "map_of example_challenge ''nonce'' = Some (PInt 1625038762)"
    and 5: "map_of example_challenge ''nc'' = None"
    by (simp_all add: example_challenge_def)
  have 3: "py_str (PInt 1625038762) = Some ''1625038762''"
    by (simp add: int_str_def nat_str.simps digit_char_def)
  have 4: "py_str (case map_of example_challenge ''nc'' of None \<Rightarrow> PInt 1 | Some v \<Rightarrow> v) = Some ''1''"
    by (simp add: 5 int_str_1)
  have 6: "int_str 7 = ''7''"
    by (simp add: int_str_def nat_str.simps digit_char_def)
  have 7: "hex_hash identity_digest ''admin:r:s'' = ''61646d696e3a723a73''"
    "hex_hash identity_digest ''dummy_method:dummy_uri''
       = ''64756d6d795f6d6574686f643a64756d6d795f757269''"
    by (simp_all add: hex_hash_def hexdigest_def identity_digest_def digit_char_def)
  have 8: "hex_hash identity_digest example_response_message = example_response"
    by (simp add: hex_hash_def hexdigest_def identity_digest_def digit_char_def
        example_response_message_def example_response_def)
  note lit8 = 8 [unfolded example_response_message_def, simplified]
  note inst = connect_auth_digest [OF 1 2 3 4, of identity_digest "''s''" 7 "[]"
      example_response_message]
  from inst have A: "connect_auth identity_digest ''s'' (PDict example_challenge) 7 =
     Some (Inr [(''realm'', PStr ''r''), (''username'', PStr ''admin''),
                (''nonce'', PInt 1625038762), (''cnonce'', PInt 7),
                (''response'', PStr example_response),
                (''algorithm'', PStr ''SHA-256'')])"
    by (simp add: 6 7 lit8)
  from inst have B: "hex_decode (hexdigest example_response_message) = Some example_response_message"
    by blast
  have C: "hexdigest example_response_message = example_response"
    using 8 by (simp add: hex_hash_def identity_digest_def)
  from A B C 1 2 3 5 7 show ?thesis
    by simp
qed

subsection \<open>The invariant of the registry\<close>

lemma registry_inv_init: "registry_inv (WsRPC_init tag socks)"
  by (simp add: registry_inv_def WsRPC_init_def cancel_targets_def)

lemma registry_inv_slots:
  assumes "registry_inv st" "map_of (self_calls st) n = Some c" "map_of (self_calls st) n' = Some c'"
    "n \<noteq> n'"
  shows "resolve c \<noteq> resolve c'"
proof
  assume eq: "resolve c = resolve c'"
  from assms(2,3) have m: "(n, c) \<in> set (self_calls st)" "(n', c') \<in> set (self_calls st)"
    by (auto dest: map_of_SomeD)
  from assms(1) have "inj_on (\<lambda>e. resolve (snd e)) (set (self_calls st))"
    by (simp add: registry_inv_def cancel_targets_def distinct_map)
  then have "(n, c) = (n', c')"
    using m eq by (intro inj_onD [where f = "\<lambda>e. resolve (snd e)"]) simp_all
  with assms(4) show False by simp
qed

lemma registry_inv_entry:
  assumes "registry_inv st" "map_of (self_calls st) n = Some c"
  shows "call_id c = n \<and> 0 < n \<and> n \<le> self_call_id st \<and> resolve c < next_future st"
  using assms by (auto simp: registry_inv_def dest!: map_of_SomeD)

lemma registry_inv_dict_del:
  assumes "registry_inv st"
  shows "registry_inv (st\<lparr>self_calls := dict_del (self_calls st) k\<rparr>)"
  using assms
  by (auto simp: registry_inv_def cancel_targets_def dict_del_def distinct_map_filter
      simp flip: map_map)

lemma registry_inv_cong:
  assumes "registry_inv st" "self_calls st' = self_calls st" "self_call_id st' = self_call_id st"
    "next_future st' = next_future st"
  shows "registry_inv st'"
  using assms by (simp add: registry_inv_def cancel_targets_def)

lemma RPCCall_init_fields:
  "call_id (fst (RPCCall_init cid m ps r fut)) = cid"
  "resolve (fst (RPCCall_init cid m ps r fut)) = fut"
  by (simp_all add: RPCCall_init_def split: option.splits)

lemma call_begin_Inr:
  assumes "call_begin st m ps = Inr (st', c, ps')"
  shows "self_client st \<noteq> None"
    and "call_id c = self_call_id st + 1"
    and "resolve c = next_future st"
    and "st' = st\<lparr>self_call_id := self_call_id st + 1,
                    futures := (futures st)(next_future st := Pending),
                    next_future := Suc (next_future st),
                    self_calls := dict_set (self_calls st) (self_call_id st + 1) c\<rparr>"
  using assms
  by (auto simp: call_begin_def Let_def split_beta RPCCall_init_fields split: if_splits)

lemma registry_inv_call_begin:
  assumes "registry_inv st" "call_begin st m ps = Inr (st', c, ps')"
  shows "registry_inv st'"
proof -
  let ?cid = "self_call_id st + 1"
  have fresh: "?cid \<notin> fst ` set (self_calls st)"
    using assms(1) by (fastforce simp: registry_inv_def)
  note b = call_begin_Inr [OF assms(2)]
  have calls: "self_calls st' = self_calls st @ [(?cid, c)]"
    by (subst b(4)) (simp add: dict_set_absent [OF fresh])
  have ids: "self_call_id st' = ?cid" "next_future st' = Suc (next_future st)"
    by (subst b(4), simp)+
  have slot: "\<forall>e\<in>set (self_calls st). resolve (snd e) \<noteq> next_future st"
    using assms(1) by (fastforce simp: registry_inv_def)
  have old: "\<forall>e\<in>set (self_calls st). call_id (snd e) = fst e \<and> 0 < fst e \<and>
      fst e \<le> ?cid \<and> resolve (snd e) < Suc (next_future st)"
    using assms(1) by (fastforce simp: registry_inv_def)
  have pos: "0 < ?cid" "0 \<le> ?cid"
    using assms(1) by (simp_all add: registry_inv_def)
  have d1: "distinct (map fst (self_calls st))" and d2: "distinct (cancel_targets st)"
    using assms(1) by (simp_all add: registry_inv_def)
  show ?thesis
    unfolding registry_inv_def cancel_targets_def calls ids
    using fresh slot old pos d1 d2 b(2,3)
    by (auto simp: cancel_targets_def)
qed

lemma handle_response_calls:
  "self_calls (snd (handle_response st i f)) = self_calls st \<or>
   (\<exists>k. self_calls (snd (handle_response st i f)) = dict_del (self_calls st) k)"
  by (auto simp: handle_response_def Let_def split: sum.splits option.splits)

lemma handle_response_counters:
  "self_call_id (snd (handle_response st i f)) = self_call_id st"
  "next_future (snd (handle_response st i f)) = next_future st"
  "sockets (snd (handle_response st i f)) = sockets st"
  "self_client (snd (handle_response st i f)) = self_client st"
  by (auto simp: handle_response_def Let_def split: sum.splits option.splits)

lemma registry_inv_handle_response:
  assumes "registry_inv st"
  shows "registry_inv (snd (handle_response st i f))"
proof -
  from handle_response_calls [of st i f] show ?thesis
  proof
    assume "self_calls (snd (handle_response st i f)) = self_calls st"
    then show ?thesis
      by (intro registry_inv_cong [OF assms]) (simp_all add: handle_response_counters)
  next
    assume "\<exists>k. self_calls (snd (handle_response st i f)) = dict_del (self_calls st) k"
    then obtain k where k: "self_calls (snd (handle_response st i f)) = dict_del (self_calls st) k" ..
    show ?thesis
      by (rule registry_inv_cong [OF registry_inv_dict_del [OF assms, of k]])
        (simp_all add: k handle_response_counters)
  qed
qed

lemma registry_inv_learn_route:
  "registry_inv st \<Longrightarrow> registry_inv (learn_route st frame)"
  by (erule registry_inv_cong) simp_all

lemma registry_inv_handle_frame:
  assumes "registry_inv st"
  shows "registry_inv (snd (handle_frame st v))"
proof (cases v)
  case (PDict frame)
  note i = registry_inv_learn_route [OF assms, of frame]
  have "registry_inv (snd (handle_response (learn_route st frame) (dict_get frame ''id'') frame))"
    by (rule registry_inv_handle_response [OF i])
  moreover have "registry_inv ((learn_route st frame)\<lparr>tasks := t\<rparr>)"
    "registry_inv ((learn_route st frame)\<lparr>notified := n\<rparr>)"
    "registry_inv ((learn_route st frame)\<lparr>warnings := w\<rparr>)" for t n w
    by (rule registry_inv_cong [OF i], simp_all)+
  ultimately show ?thesis
    using PDict by (simp add: handle_frame_def Let_def)
qed (simp_all add: handle_frame_def assms)

lemma handle_frame_sockets:
  "sockets (snd (handle_frame st v)) = sockets st"
  by (cases v) (simp_all add: handle_frame_def Let_def handle_response_counters)

lemma handle_frame_response:
  assumes "map_of (self_calls st) n = Some c" and "futures st (resolve c) = Pending"
    and "dict_get f ''id'' = PInt n" and "n \<noteq> 0" and "\<not> truthy (dict_get f ''method'')"
  shows "handle_frame st (PDict f) =
           (None, (learn_route st f)\<lparr>self_calls := dict_del (self_calls st) n,
                                     futures := (futures st)(resolve c := Finished f)\<rparr>)"
  using assms
  by (simp add: handle_frame_def handle_response_def Let_def cancelled_def set_result_def)

subsection \<open>Responses\<close>

lemma rx_loop_text:
  assumes "\<not> closed (sockets st a)"
  shows "rx_loop a st (text_message f # evs) =
           (case handle_frame st (PDict f) of
              (None, st2) \<Rightarrow> rx_loop a st2 evs
            | (Some e, st2) \<Rightarrow> Raised e st2)"
proof -
  have "(sockets st a)\<lparr>closed := False\<rparr> = sockets st a"
    using assms by (cases "sockets st a") simp
  then have "st\<lparr>sockets := (sockets st)(a := (sockets st a)\<lparr>closed := False\<rparr>)\<rparr> = st"
    by simp
  with assms show ?thesis
    by (simp add: text_message_def receive_json_or_raise_def)
qed

text \<open>
  C1. Let calls be registered (the invariant holds, so their ids and futures are
  distinct) and let the receive loop, on an open websocket, receive response frames
  with distinct ids in any order, each bearing the id of a registered call whose future
  is pending. Then the loop handles them all and waits; every frame has resolved the
  future of the call registered under its id, whose own id that is, with that very
  frame; exactly the calls addressed have left the registry; and every future that
  belongs to no addressed call is as it was.
\<close>

theorem responses_correlated_by_id:
  assumes "registry_inv st" and "\<not> closed (sockets st a)"
    and "distinct (map (\<lambda>f. dict_get f ''id'') fs)"
    and "\<forall>f\<in>set fs. \<not> truthy (dict_get f ''method'') \<and>
           (\<exists>n c. dict_get f ''id'' = PInt n \<and> map_of (self_calls st) n = Some c \<and>
                  futures st (resolve c) = Pending)"
  shows "\<exists>st'. rx_loop a st (map text_message fs) = Waiting st' \<and>
     (\<forall>f\<in>set fs. \<forall>n c. dict_get f ''id'' = PInt n \<and> map_of (self_calls st) n = Some c \<longrightarrow>
          call_id c = n \<and> futures st' (resolve c) = Finished f) \<and>
     (\<forall>n. map_of (self_calls st') n =
          (if PInt n \<in> (\<lambda>f. dict_get f ''id'') ` set fs then None else map_of (self_calls st) n)) \<and>
     (\<forall>x. (\<forall>f\<in>set fs. \<forall>n c. dict_get f ''id'' = PInt n \<and> map_of (self_calls st) n = Some c \<longrightarrow>
                resolve c \<noteq> x) \<longrightarrow>
          futures st' x = futures st x)"
  using assms
proof (induction fs arbitrary: st)
  case Nil
  then show ?case by simp
next
  case (Cons f fs)
  let ?id = "\<lambda>f. dict_get f ''id''"
  from Cons.prems(4) obtain n c where f: "\<not> truthy (dict_get f ''method'')" "?id f = PInt n"
    "map_of (self_calls st) n = Some c" "futures st (resolve c) = Pending"
    by auto
  from registry_inv_entry [OF Cons.prems(1) f(3)] have n: "call_id c = n" "n \<noteq> 0"
    by simp_all
  define st1 where "st1 = (learn_route st f)\<lparr>self_calls := dict_del (self_calls st) n,
                                     futures := (futures st)(resolve c := Finished f)\<rparr>"
  have hf: "handle_frame st (PDict f) = (None, st1)"
    unfolding st1_def using f n by (intro handle_frame_response) simp_all
  have step: "rx_loop a st (map text_message (f # fs)) = rx_loop a st1 (map text_message fs)"
    using Cons.prems(2) by (simp add: rx_loop_text hf)
  have inv1: "registry_inv st1"
    using registry_inv_handle_frame [OF Cons.prems(1), of "PDict f"] by (simp add: hf)
  have open1: "\<not> closed (sockets st1 a)"
    using Cons.prems(2) by (simp add: st1_def)
  have calls1: "map_of (self_calls st1) = (map_of (self_calls st))(n := None)"
    by (simp add: st1_def map_of_dict_del)
  have fut1: "futures st1 = (futures st)(resolve c := Finished f)"
    by (simp add: st1_def)
  have dist1: "distinct (map ?id fs)" and notin: "PInt n \<notin> ?id ` set fs"
    using Cons.prems(3) f(2) by auto
  have other: "resolve c' \<noteq> resolve c"
    if "f' \<in> set fs" "?id f' = PInt n'" "map_of (self_calls st) n' = Some c'" for f' n' c'
  proof -
    from that(1,2) notin have "n' \<noteq> n" by force
    from registry_inv_slots [OF Cons.prems(1) that(3) f(3) this] show ?thesis .
  qed
  have tail: "\<forall>f'\<in>set fs. \<not> truthy (dict_get f' ''method'') \<and>
      (\<exists>n' c'. ?id f' = PInt n' \<and> map_of (self_calls st1) n' = Some c' \<and>
               futures st1 (resolve c') = Pending)"
  proof
    fix f' assume m: "f' \<in> set fs"
    with Cons.prems(4) obtain n' c' where f': "\<not> truthy (dict_get f' ''method'')"
      "?id f' = PInt n'" "map_of (self_calls st) n' = Some c'" "futures st (resolve c') = Pending"
      by auto
    from m notin f'(2) have ne: "n' \<noteq> n" by force
    from other [OF m f'(2,3)] f' ne
    have "?id f' = PInt n' \<and> map_of (self_calls st1) n' = Some c' \<and>
          futures st1 (resolve c') = Pending"
      by (simp add: calls1 fut1)
    with f'(1) show "\<not> truthy (dict_get f' ''method'') \<and>
      (\<exists>n' c'. ?id f' = PInt n' \<and> map_of (self_calls st1) n' = Some c' \<and>
               futures st1 (resolve c') = Pending)"
      by blast
  qed
  from Cons.IH [OF inv1 open1 dist1 tail] obtain st' where
    r: "rx_loop a st1 (map text_message fs) = Waiting st'" and
    A: "\<forall>f\<in>set fs. \<forall>n c. ?id f = PInt n \<and> map_of (self_calls st1) n = Some c \<longrightarrow>
          call_id c = n \<and> futures st' (resolve c) = Finished f" and
    C: "\<forall>n. map_of (self_calls st') n =
          (if PInt n \<in> ?id ` set fs then None else map_of (self_calls st1) n)" and
    B: "\<forall>x. (\<forall>f\<in>set fs. \<forall>n c. ?id f = PInt n \<and> map_of (self_calls st1) n = Some c \<longrightarrow>
                resolve c \<noteq> x) \<longrightarrow> futures st' x = futures st1 x"
    by blast
  have A': "call_id c' = n' \<and> futures st' (resolve c') = Finished f'"
    if "f' \<in> set (f # fs)" "?id f' = PInt n'" "map_of (self_calls st) n' = Some c'" for f' n' c'
  proof (cases "f' \<in> set fs")
    case True
    with notin that(2) have "n' \<noteq> n" by force
    with that(3) have "map_of (self_calls st1) n' = Some c'" by (simp add: calls1)
    with A True that(2) show ?thesis by blast
  next
    case False
    with that(1) have "f' = f" by simp
    with that(2,3) f(2,3) have eq: "n' = n" "c' = c" by simp_all
    have "\<forall>g\<in>set fs. \<forall>k d. ?id g = PInt k \<and> map_of (self_calls st1) k = Some d \<longrightarrow>
            resolve d \<noteq> resolve c"
      using other by (auto simp: calls1 split: if_splits)
    with B have "futures st' (resolve c) = futures st1 (resolve c)" by blast
    with eq n(1) \<open>f' = f\<close> show ?thesis by (simp add: fut1)
  qed
  have C': "map_of (self_calls st') k =
      (if PInt k \<in> ?id ` set (f # fs) then None else map_of (self_calls st) k)" for k
    using C f(2) by (auto simp: calls1)
  have B': "futures st' x = futures st x"
    if "\<forall>g\<in>set (f # fs). \<forall>k d. ?id g = PInt k \<and> map_of (self_calls st) k = Some d \<longrightarrow> resolve d \<noteq> x"
    for x
  proof -
    from that f(2,3) have x: "resolve c \<noteq> x" by simp
    from that have "\<forall>g\<in>set fs. \<forall>k d. ?id g = PInt k \<and> map_of (self_calls st1) k = Some d \<longrightarrow>
            resolve d \<noteq> x"
      by (auto simp: calls1 split: if_splits)
    with B have "futures st' x = futures st1 x" by blast
    with x show ?thesis by (simp add: fut1)
  qed
  from step r A' C' B' show ?case
    by (intro exI [of _ st']) (simp only:, blast)
qed

lemma two_calls_registry:
  "self_calls two_calls =
     [(1, \<lparr>call_id = 1, call_method = ''Shelly.GetStatus'', params = None,
           call_src = PStr ''aios-1'', call_dst = PNone, resolve = 0, auth = PDict []\<rparr>),
      (2, \<lparr>call_id = 2, call_method = ''Switch.Set'',
           params = Some [(''id'', PInt 0), (''on'', PBool True)],
           call_src = PStr ''aios-1'', call_dst = PNone, resolve = 1, auth = PDict []\<rparr>)]"
  "futures two_calls 0 = Pending" "futures two_calls (Suc 0) = Pending"
  "self_call_id two_calls = 2" "next_future two_calls = 2"
  "\<not> closed (sockets two_calls 0)" "self_client two_calls = Some 0"
  "notified two_calls = []"
  by (simp_all add: two_calls_def after_call_def call_issue_def call_begin_def RPCCall_init_def
      send_json_def request_frame_def example_engine_def example_sockets_def WsRPC_init_def
      Let_def dict_in_def)

lemma registry_inv_two_calls: "registry_inv two_calls"
  by (simp add: registry_inv_def cancel_targets_def two_calls_registry)

theorem responses_correlated_by_id_witness:
  "registry_inv two_calls \<and> \<not> closed (sockets two_calls 0) \<and>
   distinct (map (\<lambda>f. dict_get f ''id'') [response_frame 2, response_frame 1]) \<and>
   futures (outcome_state (rx_loop 0 two_calls
              (map text_message [response_frame 2, response_frame 1]))) 0
     = Finished (response_frame 1) \<and>
   futures (outcome_state (rx_loop 0 two_calls
              (map text_message [response_frame 2, response_frame 1]))) 1
     = Finished (response_frame 2) \<and>
   map_of (self_calls (outcome_state (rx_loop 0 two_calls
              (map text_message [response_frame 2, response_frame 1])))) = Map.empty"
proof -
  let ?fs = "[response_frame 2, response_frame 1]"
  have h1: "registry_inv two_calls" by (rule registry_inv_two_calls)
  have h2: "\<not> closed (sockets two_calls 0)" by (simp add: two_calls_registry)
  have h3: "distinct (map (\<lambda>f. dict_get f ''id'') ?fs)"
    by (simp add: response_frame_def dict_get_def)
  have h4: "\<forall>f\<in>set ?fs. \<not> truthy (dict_get f ''method'') \<and>
           (\<exists>n c. dict_get f ''id'' = PInt n \<and> map_of (self_calls two_calls) n = Some c \<and>
                  futures two_calls (resolve c) = Pending)"
    by (simp add: response_frame_def dict_get_def two_calls_registry)
  from responses_correlated_by_id [OF h1 h2 h3 h4] obtain st' where
    r: "rx_loop 0 two_calls (map text_message ?fs) = Waiting st'" and
    A: "\<forall>f\<in>set ?fs. \<forall>n c. dict_get f ''id'' = PInt n \<and> map_of (self_calls two_calls) n = Some c \<longrightarrow>
          call_id c = n \<and> futures st' (resolve c) = Finished f" and
    C: "\<forall>n. map_of (self_calls st') n =
          (if PInt n \<in> (\<lambda>f. dict_get f ''id'') ` set ?fs then None
           else map_of (self_calls two_calls) n)"
    by blast
  from A have "futures st' 0 = Finished (response_frame 1)" "futures st' 1 = Finished (response_frame 2)"
    by (simp_all add: response_frame_def dict_get_def two_calls_registry)
  moreover from C have "map_of (self_calls st') = Map.empty"
    by (auto simp: response_frame_def dict_get_def two_calls_registry fun_eq_iff)
  ultimately show ?thesis
    using h1 h2 h3 r by simp
qed

subsection \<open>The end of the receive loop\<close>

lemma cancel_idem: "cancel (cancel fut) = cancel fut"
  by (simp add: cancel_def)

lemma foldl_cancel_at_futures:
  "futures (foldl cancel_at st xs) x = (if x \<in> set xs then cancel (futures st x) else futures st x)"
  by (induction xs arbitrary: st) (auto simp: cancel_at_def cancel_idem)

lemma foldl_cancel_at_fields:
  "self_calls (foldl cancel_at st xs) = self_calls st"
  "sockets (foldl cancel_at st xs) = sockets st"
  "notified (foldl cancel_at st xs) = notified st"
  "self_client (foldl cancel_at st xs) = self_client st"
  by (induction xs arbitrary: st) (simp_all add: cancel_at_def)

lemma registry_inv_rx_loop:
  assumes "registry_inv st" and "rx_loop a st evs = Left_loop s"
  shows "registry_inv s"
  using assms
proof (induction evs arbitrary: st)
  case Nil
  then show ?case by (simp split: if_splits)
next
  case (Cons ev evs)
  obtain msg c where ev: "ev = (msg, c)" by (cases ev)
  let ?st1 = "st\<lparr>sockets := (sockets st)(a := (sockets st a)\<lparr>closed := c\<rparr>)\<rparr>"
  have i1: "registry_inv ?st1"
    by (rule registry_inv_cong [OF Cons.prems(1)]) simp_all
  show ?case
  proof (cases "closed (sockets st a)")
    case True
    with Cons.prems ev show ?thesis by simp
  next
    case False
    show ?thesis
    proof (cases "receive_json_or_raise msg")
      case (Inl e)
      with Cons.prems(2) ev False i1 show ?thesis
        by (cases e) (simp_all add: Let_def)
    next
      case (Inr frame)
      show ?thesis
      proof (cases "c")
        case True
        with Cons.prems(2) ev False Inr have "rx_loop a ?st1 evs = Left_loop s"
          by (simp add: Let_def)
        from Cons.IH [OF i1 this] show ?thesis .
      next
        case opn: False
        obtain e st2 where h: "handle_frame ?st1 frame = (e, st2)"
          by (cases "handle_frame ?st1 frame")
        from registry_inv_handle_frame [OF i1, of frame] h have i2: "registry_inv st2"
          by simp
        from Cons.prems(2) ev False Inr opn h have "e = None \<and> rx_loop a st2 evs = Left_loop s"
          by (cases e) (simp_all add: Let_def)
        with Cons.IH [OF i2] show ?thesis by simp
      qed
    qed
  qed
qed

lemma rx_loop_not_Stopped: "rx_loop a st evs \<noteq> Stopped s"
proof (induction evs arbitrary: st)
  case Nil
  then show ?case by simp
next
  case (Cons ev evs)
  obtain msg c where ev: "ev = (msg, c)" by (cases ev)
  show ?case
    using Cons.IH
    by (auto simp: ev Let_def split: sum.splits error.splits option.splits prod.splits)
qed

lemma rx_msgs_Stopped:
  assumes "rx_msgs st evs = Stopped st'"
  shows "\<exists>a s. self_client st = Some a \<and> rx_loop a st evs = Left_loop s \<and> st' = rx_teardown a s"
  using assms rx_loop_not_Stopped
  by (auto simp: rx_msgs_def split: option.splits rx_outcome.splits)

lemma rx_teardown_facts:
  "futures (rx_teardown a s) x =
      (if x \<in> set (cancel_targets s) then cancel (futures s x) else futures s x)"
  "self_calls (rx_teardown a s) = []"
  "closed (sockets (rx_teardown a s) a)"
  "sent (sockets (rx_teardown a s) b) = sent (sockets s b)"
  "self_client (rx_teardown a s) = None"
  "notified (rx_teardown a s) = notified s @ [[PStr NOTIFY_WS_CLOSED]]"
  by (simp_all add: rx_teardown_def Let_def close_socket_def foldl_cancel_at_futures
      foldl_cancel_at_fields)

text \<open>
  When the loop is left normally, because the websocket is closed or a close message
  was received, the lines after it run. With \<open>s\<close> the state at that moment:
  \<^verbatim>\<open>cancel()\<close> is invoked on the future of every registered call, on each exactly once
  (the list of targets has no repetition), so that every pending one is cancelled and
  no other future changes; the registry is empty; the websocket is closed;
  \<^verbatim>\<open>_client\<close> is \<^verbatim>\<open>None\<close>; and the notification callback has been invoked once
  more, with the one argument \<^verbatim>\<open>NOTIFY_WS_CLOSED\<close>.
\<close>

lemma teardown_cancels_all:
  assumes "registry_inv st" and "rx_msgs st evs = Stopped st'"
  shows "\<exists>a s. self_client st = Some a \<and> rx_loop a st evs = Left_loop s \<and>
           st' = rx_teardown a s \<and>
           distinct (cancel_targets s) \<and>
           cancel_targets s = map (\<lambda>e. resolve (snd e)) (self_calls s) \<and>
           (\<forall>x. futures st' x =
                (if x \<in> set (cancel_targets s) then cancel (futures s x) else futures s x)) \<and>
           (\<forall>e\<in>set (self_calls s). futures s (resolve (snd e)) = Pending \<longrightarrow>
                futures st' (resolve (snd e)) = Cancelled) \<and>
           self_calls st' = [] \<and>
           closed (sockets st' a) \<and>
           self_client st' = None \<and>
           notified st' = notified s @ [[PStr NOTIFY_WS_CLOSED]]"
proof -
  from rx_msgs_Stopped [OF assms(2)] obtain a s where
    s: "self_client st = Some a" "rx_loop a st evs = Left_loop s" "st' = rx_teardown a s"
    by blast
  from registry_inv_rx_loop [OF assms(1) s(2)] have d: "distinct (cancel_targets s)"
    by (simp add: registry_inv_def)
  have p: "\<forall>e\<in>set (self_calls s). futures s (resolve (snd e)) = Pending \<longrightarrow>
                futures st' (resolve (snd e)) = Cancelled"
    by (auto simp: s(3) rx_teardown_facts cancel_targets_def cancel_def)
  from s d p show ?thesis
    by (intro exI [of _ a] exI [of _ s]) (simp add: rx_teardown_facts cancel_targets_def)
qed

lemma rx_msgs_two_calls_close:
  "rx_msgs two_calls [close_message] = Stopped (outcome_state (rx_msgs two_calls [close_message]))"
  by (simp add: rx_msgs_def two_calls_registry close_message_def receive_json_or_raise_def)

lemma teardown_cancels_all_example:
  "registry_inv two_calls \<and>
   rx_msgs two_calls [close_message] = Stopped (outcome_state (rx_msgs two_calls [close_message])) \<and>
   futures (outcome_state (rx_msgs two_calls [close_message])) 0 = Cancelled \<and>
   futures (outcome_state (rx_msgs two_calls [close_message])) 1 = Cancelled \<and>
   self_calls (outcome_state (rx_msgs two_calls [close_message])) = [] \<and>
   self_client (outcome_state (rx_msgs two_calls [close_message])) = None \<and>
   notified (outcome_state (rx_msgs two_calls [close_message])) = [[PStr NOTIFY_WS_CLOSED]]"
proof -
  let ?st' = "outcome_state (rx_msgs two_calls [close_message])"
  from teardown_cancels_all [OF registry_inv_two_calls rx_msgs_two_calls_close]
  obtain a s where s: "self_client two_calls = Some a" "rx_loop a two_calls [close_message] = Left_loop s"
    and p: "\<forall>e\<in>set (self_calls s). futures s (resolve (snd e)) = Pending \<longrightarrow>
                futures ?st' (resolve (snd e)) = Cancelled"
    and r: "self_calls ?st' = []" "self_client ?st' = None"
      "notified ?st' = notified s @ [[PStr NOTIFY_WS_CLOSED]]"
    by blast
  from s(1) have a: "a = 0" by (simp add: two_calls_registry)
  from s(2) have s': "s = two_calls\<lparr>sockets := (sockets two_calls)(0 := (sockets two_calls 0)\<lparr>closed := True\<rparr>)\<rparr>"
    by (simp add: a two_calls_registry close_message_def receive_json_or_raise_def)
  from p have "futures ?st' 0 = Cancelled" "futures ?st' 1 = Cancelled"
    by (simp_all add: s' two_calls_registry)
  with r registry_inv_two_calls rx_msgs_two_calls_close show ?thesis
    by (simp add: s' two_calls_registry)
qed

text \<open>
  The callback is invoked as \<^verbatim>\<open>sink("connection-closed")\<close>, with one argument; a
  notification frame of that name without parameters would give
  \<^verbatim>\<open>sink("connection-closed", null)\<close>.
\<close>

lemma teardown_notifies_with_one_argument:
  "rx_msgs example_engine [close_message]
     = Stopped (outcome_state (rx_msgs example_engine [close_message])) \<and>
   notified (outcome_state (rx_msgs example_engine [close_message])) = [[PStr ''connection-closed'']] \<and>
   notified (outcome_state (rx_msgs example_engine [close_message]))
     \<noteq> [[PStr ''connection-closed'', PNone]]"
  by (simp add: rx_msgs_def rx_teardown_def close_message_def receive_json_or_raise_def Let_def
      cancel_targets_def close_socket_def NOTIFY_WS_CLOSED_def example_engine_def
      example_sockets_def WsRPC_init_def)

text \<open>
  Every other way the loop ends is an exception that leaves \<^verbatim>\<open>_rx_msgs\<close>, only
  \<^verbatim>\<open>ConnectionClosed\<close> being caught: an error message raises
  \<^verbatim>\<open>ConnectionFailed\<close>, a message that is not text or not JSON raises
  \<^verbatim>\<open>InvalidMessage\<close>, and the lines after the loop do not run.
\<close>

lemma rx_msgs_error_message:
  assumes "self_client st = Some a" and "\<not> closed (sockets st a)"
  shows "rx_msgs st ((\<lparr>msg_type = ERROR, msg_json = j\<rparr>, c) # evs) =
           Raised ConnectionFailed (st\<lparr>sockets := (sockets st)(a := (sockets st a)\<lparr>closed := c\<rparr>)\<rparr>)"
  using assms by (simp add: rx_msgs_def receive_json_or_raise_def Let_def)

lemma invalid_messages_skip_teardown:
  "rx_msgs two_calls [binary_message]
     = Raised InvalidMessage (outcome_state (rx_msgs two_calls [binary_message]))"
  "rx_msgs two_calls [undecodable_message]
     = Raised InvalidMessage (outcome_state (rx_msgs two_calls [undecodable_message]))"
  "self_calls (outcome_state (rx_msgs two_calls [binary_message])) = self_calls two_calls"
  "self_calls (outcome_state (rx_msgs two_calls [undecodable_message])) = self_calls two_calls"
  "futures (outcome_state (rx_msgs two_calls [binary_message])) = futures two_calls"
  "futures (outcome_state (rx_msgs two_calls [undecodable_message])) = futures two_calls"
  "notified (outcome_state (rx_msgs two_calls [binary_message])) = []"
  "notified (outcome_state (rx_msgs two_calls [undecodable_message])) = []"
  by (simp_all add: rx_msgs_def two_calls_registry binary_message_def undecodable_message_def
      receive_json_or_raise_def)

text \<open>
  C4. Whenever the receive loop stops while calls are pending, every one of them is to
  be cancelled exactly once, the registry emptied, the websocket closed, \<^verbatim>\<open>_client\<close>
  cleared and the notification callback told that the connection is closed. The code
  does not do so when the loop stops on an error message of the websocket: with two
  calls pending, \<^verbatim>\<open>_rx_msgs\<close> ends with \<^verbatim>\<open>ConnectionFailed\<close>, both futures are still
  pending, both calls are still registered, \<^verbatim>\<open>_client\<close> is still set and the callback
  has not been invoked.
\<close>

theorem error_message_skips_teardown:
  "rx_msgs two_calls [error_message]
     = Raised ConnectionFailed (outcome_state (rx_msgs two_calls [error_message])) \<and>
   futures (outcome_state (rx_msgs two_calls [error_message])) 0 = Pending \<and>
   futures (outcome_state (rx_msgs two_calls [error_message])) 1 = Pending \<and>
   map fst (self_calls (outcome_state (rx_msgs two_calls [error_message]))) = [1, 2] \<and>
   self_client (outcome_state (rx_msgs two_calls [error_message])) = Some 0 \<and>
   notified (outcome_state (rx_msgs two_calls [error_message])) = []"
  by (simp add: rx_msgs_def two_calls_registry error_message_def receive_json_or_raise_def)

end
